theory Spec2Isabelle
  imports Main "HOL-Library.AList"
begin

section \<open>JavaScript values and objects\<close>

text \<open>
  The values that travel through \<^verbatim>\<open>app.js\<close>: cell values, row identifiers and
  form data. Numbers are restricted to integers and \<^verbatim>\<open>NaN\<close>; the code under study
  only tests numbers for truthiness and renders identifiers and timestamps, which
  are integers. The last two constructors are what a property read can find on
  \<^verbatim>\<open>Object.prototype\<close>: a built-in function, by its name, and that prototype object
  itself.
\<close>

datatype jsval =
    JUndefined | JNull | JBool bool | JNum int | JNaN | JStr string
  | JFunction string | JObjectPrototype

text \<open>
  A plain object is the table of its own properties. Every object of the application is
  an object literal, a spread copy or parsed JSON, so its prototype is
  \<^verbatim>\<open>Object.prototype\<close>, whose members are these.
\<close>

type_synonym jsobj = "string \<rightharpoonup> jsval"

definition object_prototype :: "string \<Rightarrow> jsval option" where
  "object_prototype k =
     (if k = ''constructor'' then Some (JFunction ''Object'')
      else if k = ''__proto__'' then Some JObjectPrototype
      else if k \<in> set [''hasOwnProperty'', ''isPrototypeOf'', ''propertyIsEnumerable'',
                         ''toLocaleString'', ''toString'', ''valueOf'',
                         ''__defineGetter__'', ''__defineSetter__'',
                         ''__lookupGetter__'', ''__lookupSetter__'']
        then Some (JFunction k)
      else None)"

text \<open>
  The read \<^verbatim>\<open>obj[k]\<close>: the own property if there is one, else what the prototype
  holds under that name, else \<^verbatim>\<open>undefined\<close>.
\<close>

definition get_prop :: "jsobj \<Rightarrow> string \<Rightarrow> jsval" where
  "get_prop obj k =
     (case obj k of
        Some v \<Rightarrow> v
      | None \<Rightarrow> (case object_prototype k of None \<Rightarrow> JUndefined | Some v \<Rightarrow> v))"

text \<open>ToBoolean: what \<^verbatim>\<open>!x\<close>, \<^verbatim>\<open>x || y\<close> and \<^verbatim>\<open>if (x)\<close> test.\<close>

fun truthy :: "jsval \<Rightarrow> bool" where
  "truthy JUndefined = False"
| "truthy JNull = False"
| "truthy (JBool b) = b"
| "truthy (JNum n) = (n \<noteq> 0)"
| "truthy JNaN = False"
| "truthy (JStr s) = (s \<noteq> [])"
| "truthy (JFunction f) = True"
| "truthy JObjectPrototype = True"

text \<open>
  Strict inequality \<^verbatim>\<open>a !== b\<close>: \<^verbatim>\<open>NaN\<close> differs from itself; a built-in is the
  same object wherever it is read.
\<close>

definition strict_neq :: "jsval \<Rightarrow> jsval \<Rightarrow> bool" where
  "strict_neq a b = (a \<noteq> b \<or> a = JNaN)"

text \<open>Decimal rendering of a non-negative integer, as string concatenation does it.\<close>

definition digit_char :: "nat \<Rightarrow> char" where
  "digit_char d = ''0123456789'' ! d"

fun show_nat :: "nat \<Rightarrow> string" where
  "show_nat n = (if n < 10 then [digit_char n] else show_nat (n div 10) @ [digit_char (n mod 10)])"

declare show_nat.simps [simp del]

text \<open>
  ToString, as a template literal or \<^verbatim>\<open>'..' + x\<close> applies it. A built-in function
  is rendered the way V8 does.
\<close>

fun to_string :: "jsval \<Rightarrow> string" where
  "to_string JUndefined = ''undefined''"
| "to_string JNull = ''null''"
| "to_string (JBool b) = (if b then ''true'' else ''false'')"
| "to_string (JNum n) = (if n < 0 then ''-'' @ show_nat (nat (- n)) else show_nat (nat n))"
| "to_string JNaN = ''NaN''"
| "to_string (JStr s) = s"
| "to_string (JFunction f) = ''function '' @ f @ ''() { [native code] }''"
| "to_string JObjectPrototype = ''[object Object]''"

text \<open>\<^verbatim>\<open>s.startsWith(p)\<close> on strings.\<close>

definition startsWith :: "string \<Rightarrow> string \<Rightarrow> bool" where
  "startsWith s p = (take (length p) s = p)"

section \<open>Data model\<close>

text \<open>A field definition of the schema, as \<^verbatim>\<open>/api/fields\<close> delivers it.\<close>

record field_def =
  name :: string
  title :: string
  ftype :: string
  required :: bool
  choices :: "string list"

text \<open>
  A pending change entry \<^verbatim>\<open>{ original: {...event.data}, changes: {} }\<close>.
\<close>

record pending_entry =
  original :: jsobj
  changes :: jsobj

text \<open>
  \<^verbatim>\<open>this.pendingChanges\<close> is a \<^verbatim>\<open>Map\<close>: keys are compared by value, entries are
  kept in insertion order, and iteration follows that order. It is an association
  list whose keys are whatever \<^verbatim>\<open>rowId\<close> was.
\<close>

type_synonym pending_map = "(jsval \<times> pending_entry) list"

definition Map_has :: "pending_map \<Rightarrow> jsval \<Rightarrow> bool" where
  "Map_has m k = (map_of m k \<noteq> None)"

definition Map_set :: "pending_map \<Rightarrow> jsval \<Rightarrow> pending_entry \<Rightarrow> pending_map" where
  "Map_set m k v = AList.update k v m"

definition Map_size :: "pending_map \<Rightarrow> nat" where
  "Map_size m = length m"

text \<open>
  The cell event of the grid: \<^verbatim>\<open>event.data\<close>, \<^verbatim>\<open>event.colDef.field\<close>,
  \<^verbatim>\<open>event.newValue\<close> and \<^verbatim>\<open>event.oldValue\<close>.
\<close>

record cell_event =
  data :: jsobj
  colDef_field :: string
  newValue :: jsval
  oldValue :: jsval

section \<open>Network and user interface effects\<close>

text \<open>
  One operation of the bulk request: \<^verbatim>\<open>{action, data}\<close> for a create,
  \<^verbatim>\<open>{action, id, data}\<close> for an update.
\<close>

record operation =
  action :: string
  op_id :: "jsval option"
  op_data :: jsobj

text \<open>Every \<^verbatim>\<open>fetch\<close> the application issues.\<close>

datatype request =
    GET_fields
  | GET_data
  | POST_item jsobj
  | DELETE_item string
  | POST_bulk "operation list"

text \<open>
  What awaiting a request gives: the promise rejects (the network fails, or the body
  is not JSON) with an error message, or it delivers a response.
\<close>

datatype 'a fetched = Rejected string | Fulfilled 'a

text \<open>The response bodies, with the properties the code reads.\<close>

record fields_response =
  fr_error :: jsval
  fr_fields :: "field_def list option"

record data_response =
  dr_error :: jsval
  dr_items :: "jsobj list option"

text \<open>
  \<^verbatim>\<open>result.success\<close> and \<^verbatim>\<open>result.error\<close> of \<^verbatim>\<open>POST /api/item\<close>.
\<close>

record item_response =
  ir_success :: bool
  ir_error :: jsval

text \<open>
  \<^verbatim>\<open>result.success\<close> of \<^verbatim>\<open>POST /api/bulk\<close>, and the text
  \<^verbatim>\<open>JSON.stringify(result.errors)\<close> of its reported failures.
\<close>

record bulk_response =
  br_success :: bool
  br_errors_json :: string

text \<open>
  The application object: the fields of \<^verbatim>\<open>SharePointExcelApp\<close> the operations
  read and write (\<^verbatim>\<open>this.fields\<close> is \<open>app_fields\<close>), and the effects they
  leave: the requests issued so far, the toasts shown, the error banner and the state of
  the save button. The grid widget and the other elements of the page are left out.
\<close>

record app =
  app_fields :: "field_def list"
  pendingChanges :: pending_map
  isConnected :: bool
  currentData :: "jsobj list"
  pendingConfirmAction :: "jsobj list option"
  requests :: "request list"
  toasts :: "(string \<times> string) list"
  errorBanner :: "string option"
  saveEnabled :: bool

definition showToast :: "string \<Rightarrow> string \<Rightarrow> app \<Rightarrow> app" where
  "showToast message type st = st\<lparr>toasts := toasts st @ [(message, type)]\<rparr>"

text \<open>
  \<^verbatim>\<open>showError(message)\<close>: the banner shows a truthy message and is hidden otherwise,
  on \<^verbatim>\<open>null\<close> as on the empty string.
\<close>

definition showError :: "string option \<Rightarrow> app \<Rightarrow> app" where
  "showError message st =
     (case message of
        Some m \<Rightarrow> if m \<noteq> [] then st\<lparr>errorBanner := Some m\<rparr> else st\<lparr>errorBanner := None\<rparr>
      | None \<Rightarrow> st\<lparr>errorBanner := None\<rparr>)"

definition enableSaveButton :: "bool \<Rightarrow> app \<Rightarrow> app" where
  "enableSaveButton enabled st = st\<lparr>saveEnabled := enabled\<rparr>"

definition fetch :: "request \<Rightarrow> app \<Rightarrow> app" where
  "fetch r st = st\<lparr>requests := requests st @ [r]\<rparr>"

section \<open>Change tracking\<close>

text \<open>
  \<^verbatim>\<open>const rowId = event.data.ID || 'new_' + Date.now();\<close> The clock reading
  \<open>now\<close> is an input of the handler.
\<close>

definition rowId_of :: "nat \<Rightarrow> cell_event \<Rightarrow> jsval" where
  "rowId_of now ev =
     (if truthy (get_prop (data ev) ''ID'') then get_prop (data ev) ''ID''
      else JStr (''new_'' @ show_nat now))"

text \<open>
  \<^verbatim>\<open>onCellChanged(event)\<close>. The entry that \<^verbatim>\<open>get(rowId)\<close> returns is mutated in
  place; \<open>AList.map_entry\<close> rewrites it where it stands. The key is always present
  at that point, by the \<^verbatim>\<open>has\<close>/\<^verbatim>\<open>set\<close> just before.
\<close>

definition onCellChanged :: "nat \<Rightarrow> cell_event \<Rightarrow> app \<Rightarrow> app" where
  "onCellChanged now ev st =
     (let rowId = rowId_of now ev;
          fieldName = colDef_field ev
      in if strict_neq (newValue ev) (oldValue ev) then
           let p1 = (if \<not> Map_has (pendingChanges st) rowId
                     then Map_set (pendingChanges st) rowId
                            \<lparr>original = data ev, changes = Map.empty\<rparr>
                     else pendingChanges st);
               p2 = AList.map_entry rowId
                      (\<lambda>e. e\<lparr>changes := (changes e)(fieldName \<mapsto> newValue ev)\<rparr>) p1
           in enableSaveButton True (st\<lparr>pendingChanges := p2\<rparr>)
         else st)"

text \<open>A run of cell events, each with the clock reading at which it is handled.\<close>

definition run_edits :: "(nat \<times> cell_event) list \<Rightarrow> app \<Rightarrow> app" where
  "run_edits evs st = fold (\<lambda>(now, ev). onCellChanged now ev) evs st"

section \<open>Adding a row through the modal\<close>

text \<open>
  \<^verbatim>\<open>validateRowData(data)\<close>: the \<^verbatim>\<open>forEach\<close> over \<^verbatim>\<open>this.fields\<close> pushes one
  message for each field that fails the test.
\<close>

definition validateRowData :: "app \<Rightarrow> jsobj \<Rightarrow> string list" where
  "validateRowData st d =
     fold (\<lambda>field errors.
             if required field \<and>
                (\<not> truthy (get_prop d (name field)) \<or> get_prop d (name field) = JStr [])
             then errors @ [title field @ '' is required'']
             else errors)
          (app_fields st) []"

text \<open>
  The form as the handler reads it: the entries of \<^verbatim>\<open>FormData\<close> in order, and the
  \<^verbatim>\<open>checked\<close> state of the element with a given id.
\<close>

record form =
  entries :: "(string \<times> string) list"
  checked :: "string \<Rightarrow> bool"

text \<open>\<^verbatim>\<open>errors.join('\n')\<close>.\<close>

fun join_lines :: "string list \<Rightarrow> string" where
  "join_lines [] = []"
| "join_lines [x] = x"
| "join_lines (x # y # ys) = x @ [CHR 0x0A] @ join_lines (y # ys)"

text \<open>
  The loop of \<^verbatim>\<open>saveRowFromModal\<close> that converts the form to an object. The
  built-in \<^verbatim>\<open>parseFloat\<close> is a parameter.
\<close>

definition form_to_data :: "(string \<Rightarrow> jsval) \<Rightarrow> app \<Rightarrow> form \<Rightarrow> jsobj" where
  "form_to_data parseFloat st fm =
     fold (\<lambda>(key, val) d.
             case find (\<lambda>f. name f = key) (app_fields st) of
               None \<Rightarrow> d
             | Some field \<Rightarrow>
                 if ftype field = ''Boolean'' then d(key \<mapsto> JBool (checked fm key))
                 else if ftype field = ''Number''
                   then d(key \<mapsto> (if val \<noteq> [] then parseFloat val else JNull))
                 else d(key \<mapsto> (if val \<noteq> [] then JStr val else JNull)))
          (entries fm) Map.empty"

section \<open>Loading and refreshing\<close>

text \<open>The \<^verbatim>\<open>catch\<close> block of \<^verbatim>\<open>loadInitialData\<close>.\<close>

definition load_failed :: "string \<Rightarrow> app \<Rightarrow> app" where
  "load_failed m st = (showError (Some m) st)\<lparr>isConnected := False\<rparr>"

text \<open>
  \<^verbatim>\<open>loadInitialData()\<close>, run to its end with the outcomes of its two requests. The
  rows are requested only after the schema has arrived without an error. Every
  exception is caught inside, so the function always returns.
\<close>

definition loadInitialData ::
  "fields_response fetched \<Rightarrow> data_response fetched \<Rightarrow> app \<Rightarrow> app" where
  "loadInitialData fres dres st =
     (let st1 = fetch GET_fields st in
      case fres of
        Rejected m \<Rightarrow> load_failed m st1
      | Fulfilled fieldsData \<Rightarrow>
          if truthy (fr_error fieldsData)
          then load_failed (to_string (fr_error fieldsData)) st1
          else
            let st2 = st1\<lparr>app_fields :=
                        (case fr_fields fieldsData of None \<Rightarrow> [] | Some fs \<Rightarrow> fs)\<rparr>;
                st3 = fetch GET_data st2
            in case dres of
                 Rejected m \<Rightarrow> load_failed m st3
               | Fulfilled d \<Rightarrow>
                   if truthy (dr_error d) then load_failed (to_string (dr_error d)) st3
                   else showError None
                          (st3\<lparr>currentData :=
                                 (case dr_items d of None \<Rightarrow> [] | Some items \<Rightarrow> items),
                               isConnected := True\<rparr>))"

text \<open>\<^verbatim>\<open>refreshData()\<close>: reload, then clear the pending map, whatever the reload did.\<close>

definition refreshData ::
  "fields_response fetched \<Rightarrow> data_response fetched \<Rightarrow> app \<Rightarrow> app" where
  "refreshData fres dres st =
     enableSaveButton False ((loadInitialData fres dres st)\<lparr>pendingChanges := []\<rparr>)"

text \<open>
  \<^verbatim>\<open>saveRowFromModal()\<close>, with the outcome of \<^verbatim>\<open>POST /api/item\<close> and of the two
  requests of the refresh that follows a success.
\<close>

definition saveRowFromModal ::
  "(string \<Rightarrow> jsval) \<Rightarrow> form \<Rightarrow> item_response fetched \<Rightarrow>
   fields_response fetched \<Rightarrow> data_response fetched \<Rightarrow> app \<Rightarrow> app" where
  "saveRowFromModal parseFloat fm ires fres dres st =
     (let d = form_to_data parseFloat st fm;
          errors = validateRowData st d
      in if length errors > 0
         then showToast (''Please fix the following errors:'' @ [CHR 0x0A] @ join_lines errors)
                ''error'' st
         else
           let st1 = fetch (POST_item d) st in
           case ires of
             Rejected m \<Rightarrow> showToast (''Error adding row: '' @ m) ''error'' st1
           | Fulfilled result \<Rightarrow>
               if ir_success result
               then refreshData fres dres (showToast ''Row added successfully'' ''success'' st1)
               else showToast
                      (''Error adding row: '' @
                         (if truthy (ir_error result) then to_string (ir_error result)
                          else ''Failed to add row''))
                      ''error'' st1)"

section \<open>Saving all pending changes\<close>

text \<open>
  An exception that no \<^verbatim>\<open>try\<close> block of the handler catches: the handler stops
  there and the application object stays as it was.
\<close>

datatype js_error = TypeError

text \<open>
  The loop of \<^verbatim>\<open>saveAllChanges\<close> over the entries of the pending map, in iteration
  order. \<^verbatim>\<open>rowId.startsWith\<close> exists on strings only: on any other key the call
  throws, outside the \<^verbatim>\<open>try\<close> block. The spread
  \<^verbatim>\<open>{...change.original, ...change.changes}\<close> is the override of the maps.
\<close>

fun build_operations :: "pending_map \<Rightarrow> operation list \<Rightarrow> js_error + operation list" where
  "build_operations [] operations = Inr operations"
| "build_operations ((rowId, change) # rest) operations =
     (case rowId of
        JStr s \<Rightarrow>
          if startsWith s ''new_''
          then build_operations rest
                 (operations @ [\<lparr>action = ''create'', op_id = None,
                                  op_data = original change ++ changes change\<rparr>])
          else build_operations rest
                 (operations @ [\<lparr>action = ''update'', op_id = Some rowId,
                                  op_data = changes change\<rparr>])
      | _ \<Rightarrow> Inl TypeError)"

definition saveAllChanges ::
  "bulk_response fetched \<Rightarrow> fields_response fetched \<Rightarrow> data_response fetched \<Rightarrow>
   app \<Rightarrow> js_error + app" where
  "saveAllChanges bres fres dres st =
     (if Map_size (pendingChanges st) = 0
      then Inr (showToast ''No changes to save'' ''info'' st)
      else
        case build_operations (pendingChanges st) [] of
          Inl e \<Rightarrow> Inl e
        | Inr operations \<Rightarrow>
            let st1 = fetch (POST_bulk operations) st in
            case bres of
              Rejected m \<Rightarrow> Inr (showToast (''Error saving changes: '' @ m) ''error'' st1)
            | Fulfilled result \<Rightarrow>
                if br_success result
                then Inr (refreshData fres dres
                            (enableSaveButton False
                               ((showToast ''All changes saved successfully'' ''success'' st1)
                                  \<lparr>pendingChanges := []\<rparr>)))
                else Inr (showToast
                            (''Error saving changes: '' @ ''Some operations failed: '' @
                               br_errors_json result)
                            ''error'' st1))"

section \<open>Deleting the selected rows\<close>

text \<open>
  The \<^verbatim>\<open>for\<close> loop of the confirmed action: one \<^verbatim>\<open>DELETE\<close> per row, each awaited
  before the next. \<open>resp i\<close> is the outcome of the \<open>i\<close>-th request of the loop. A
  rejected request or a response that is not \<^verbatim>\<open>ok\<close> leaves the loop with the error
  message, at the state reached.
\<close>

fun delete_loop ::
  "(nat \<Rightarrow> bool fetched) \<Rightarrow> nat \<Rightarrow> jsobj list \<Rightarrow> app \<Rightarrow> (string \<times> app) + app" where
  "delete_loop resp i [] st = Inr st"
| "delete_loop resp i (row # rows) st =
     (let st1 = fetch (DELETE_item (to_string (get_prop row ''ID''))) st in
      case resp i of
        Rejected m \<Rightarrow> Inl (m, st1)
      | Fulfilled ok \<Rightarrow>
          if \<not> ok then Inl (''Failed to delete row '' @ to_string (get_prop row ''ID''), st1)
          else delete_loop resp (Suc i) rows st1)"

text \<open>The function stored in \<^verbatim>\<open>this.pendingConfirmAction\<close>, closed over the selection.\<close>

definition confirmed_delete ::
  "jsobj list \<Rightarrow> (nat \<Rightarrow> bool fetched) \<Rightarrow> fields_response fetched \<Rightarrow>
   data_response fetched \<Rightarrow> app \<Rightarrow> app" where
  "confirmed_delete selectedRows resp fres dres st =
     (case delete_loop resp 0 selectedRows st of
        Inl (m, st1) \<Rightarrow> showToast (''Error deleting rows: '' @ m) ''error'' st1
      | Inr st1 \<Rightarrow>
          refreshData fres dres
            (showToast (show_nat (length selectedRows) @ '' row(s) deleted successfully'')
               ''success'' st1))"

text \<open>
  \<^verbatim>\<open>deleteSelectedRows()\<close> with the selection \<^verbatim>\<open>gridApi.getSelectedRows()\<close>: it
  only arms the confirmation.
\<close>

definition deleteSelectedRows :: "jsobj list \<Rightarrow> app \<Rightarrow> app" where
  "deleteSelectedRows selectedRows st =
     (if length selectedRows = 0
      then showToast ''Please select rows to delete'' ''error'' st
      else st\<lparr>pendingConfirmAction := Some selectedRows\<rparr>)"

definition executeConfirmedAction ::
  "(nat \<Rightarrow> bool fetched) \<Rightarrow> fields_response fetched \<Rightarrow> data_response fetched \<Rightarrow>
   app \<Rightarrow> app" where
  "executeConfirmedAction resp fres dres st =
     (case pendingConfirmAction st of
        Some selectedRows \<Rightarrow>
          (confirmed_delete selectedRows resp fres dres st)\<lparr>pendingConfirmAction := None\<rparr>
      | None \<Rightarrow> st)"

section \<open>Notions used to state the properties\<close>

text \<open>
  The effective edits of a run that are filed under the key \<open>r\<close>: the events whose
  new value differs from the old one and whose \<^verbatim>\<open>rowId\<close>, as the handler computes
  it, is \<open>r\<close>, in the order handled. The selection is by key, not by row: the edits
  of one row are all among them only when the row keeps its key.
\<close>

definition edits_of :: "jsval \<Rightarrow> (nat \<times> cell_event) list \<Rightarrow> cell_event list" where
  "edits_of r evs =
     map snd (filter (\<lambda>(now, ev). rowId_of now ev = r \<and>
                                   strict_neq (newValue ev) (oldValue ev)) evs)"

text \<open>Last write wins: the value of the last edit of each field, no entry for the others.\<close>

definition last_written :: "cell_event list \<Rightarrow> string \<Rightarrow> jsval option" where
  "last_written es f =
     (let ws = filter (\<lambda>ev. colDef_field ev = f) es
      in if ws = [] then None else Some (newValue (last ws)))"

text \<open>
  The operation that the loop of \<^verbatim>\<open>saveAllChanges\<close> builds for an entry whose key is
  the string \<open>s\<close>.
\<close>

definition operation_of :: "string \<Rightarrow> pending_entry \<Rightarrow> operation" where
  "operation_of s change =
     (if startsWith s ''new_''
      then \<lparr>action = ''create'', op_id = None, op_data = original change ++ changes change\<rparr>
      else \<lparr>action = ''update'', op_id = Some (JStr s), op_data = changes change\<rparr>)"

text \<open>
  The schema request of a reload came back without an error: only then does
  \<^verbatim>\<open>loadInitialData\<close> go on to request the rows.
\<close>

definition schema_arrived :: "fields_response fetched \<Rightarrow> bool" where
  "schema_arrived fres =
     (case fres of
        Rejected m \<Rightarrow> False
      | Fulfilled fieldsData \<Rightarrow> \<not> truthy (fr_error fieldsData))"

text \<open>
  Stated after the specification: the submitted value of a field is absent or the empty
  string.
\<close>

definition absent_or_empty :: "jsobj \<Rightarrow> field_def \<Rightarrow> bool" where
  "absent_or_empty d f = (d (name f) = None \<or> d (name f) = Some (JStr []))"

definition required_message :: "field_def \<Rightarrow> string" where
  "required_message f = title f @ '' is required''"

text \<open>The request of the delete loop for a row, and the message with which it fails.\<close>

definition delete_request :: "jsobj \<Rightarrow> request" where
  "delete_request row = DELETE_item (to_string (get_prop row ''ID''))"

definition delete_failure :: "bool fetched \<Rightarrow> jsobj \<Rightarrow> string" where
  "delete_failure outcome row =
     (case outcome of
        Rejected m \<Rightarrow> m
      | Fulfilled ok \<Rightarrow> ''Failed to delete row '' @ to_string (get_prop row ''ID''))"

section \<open>Sample inputs\<close>

definition empty_app :: app where
  "empty_app = \<lparr>app_fields = [], pendingChanges = [], isConnected = True, currentData = [],
                pendingConfirmAction = None, requests = [], toasts = [], errorBanner = None,
                saveEnabled = False\<rparr>"

text \<open>Row 7: its status goes from Open to Closed, then its owner from Alice to Bob.\<close>

definition status_edit :: cell_event where
  "status_edit =
     \<lparr>data = [''ID'' \<mapsto> JNum 7, ''Status'' \<mapsto> JStr ''Closed'', ''Owner'' \<mapsto> JStr ''Alice''],
      colDef_field = ''Status'', newValue = JStr ''Closed'', oldValue = JStr ''Open''\<rparr>"

definition owner_edit :: cell_event where
  "owner_edit =
     \<lparr>data = [''ID'' \<mapsto> JNum 7, ''Status'' \<mapsto> JStr ''Closed'', ''Owner'' \<mapsto> JStr ''Bob''],
      colDef_field = ''Owner'', newValue = JStr ''Bob'', oldValue = JStr ''Alice''\<rparr>"

text \<open>A row whose identifier is the string 7.\<close>

definition text_id_edit :: cell_event where
  "text_id_edit =
     \<lparr>data = [''ID'' \<mapsto> JStr ''7'', ''Status'' \<mapsto> JStr ''Closed''],
      colDef_field = ''Status'', newValue = JStr ''Closed'', oldValue = JStr ''Open''\<rparr>"

text \<open>A row without an identifier: its title is typed in, then its note.\<close>

definition title_edit :: cell_event where
  "title_edit =
     \<lparr>data = [''Title'' \<mapsto> JStr ''Draft''],
      colDef_field = ''Title'', newValue = JStr ''Draft'', oldValue = JNull\<rparr>"

definition note_edit :: cell_event where
  "note_edit =
     \<lparr>data = [''Title'' \<mapsto> JStr ''Draft'', ''Note'' \<mapsto> JStr ''todo''],
      colDef_field = ''Note'', newValue = JStr ''todo'', oldValue = JUndefined\<rparr>"

text \<open>Responses of the backend, and requests that fail on the way.\<close>

definition bulk_ok :: bulk_response where
  "bulk_ok = \<lparr>br_success = True, br_errors_json = ''undefined''\<rparr>"

definition bulk_failed :: bulk_response where
  "bulk_failed = \<lparr>br_success = False, br_errors_json = ''[409]''\<rparr>"

definition item_ok :: item_response where
  "item_ok = \<lparr>ir_success = True, ir_error = JUndefined\<rparr>"

definition schema_down :: "fields_response fetched" where
  "schema_down = Rejected ''Failed to fetch''"

definition rows_down :: "data_response fetched" where
  "rows_down = Rejected ''Failed to fetch''"

definition schema_ok :: "fields_response fetched" where
  "schema_ok = Fulfilled \<lparr>fr_error = JUndefined, fr_fields = Some []\<rparr>"

definition rows_ok :: "data_response fetched" where
  "rows_ok = Fulfilled \<lparr>dr_error = JUndefined, dr_items = Some []\<rparr>"

text \<open>A schema with a required number, a required checkbox and an optional text.\<close>

definition count_field :: field_def where
  "count_field =
     \<lparr>name = ''Count'', title = ''Count'', ftype = ''Number'', required = True, choices = []\<rparr>"

definition done_field :: field_def where
  "done_field =
     \<lparr>name = ''Done'', title = ''Done'', ftype = ''Boolean'', required = True, choices = []\<rparr>"

definition note_field :: field_def where
  "note_field =
     \<lparr>name = ''Note'', title = ''Note'', ftype = ''Text'', required = False, choices = []\<rparr>"

definition constructor_field :: field_def where
  "constructor_field =
     \<lparr>name = ''constructor'', title = ''Constructor'', ftype = ''Text'', required = True,
      choices = []\<rparr>"

definition count_app :: app where
  "count_app = empty_app\<lparr>app_fields := [count_field, done_field, note_field]\<rparr>"

definition zero_data :: jsobj where
  "zero_data = [''Count'' \<mapsto> JNum 0, ''Done'' \<mapsto> JBool True]"

definition falsy_data :: jsobj where
  "falsy_data = [''Count'' \<mapsto> JNum 0, ''Done'' \<mapsto> JBool False]"

definition sample_parseFloat :: "string \<Rightarrow> jsval" where
  "sample_parseFloat s = (if s = ''0'' then JNum 0 else if s = ''5'' then JNum 5 else JNaN)"

definition done_checked :: "string \<Rightarrow> bool" where
  "done_checked key = (key = ''Done'')"

definition zero_form :: form where
  "zero_form = \<lparr>entries = [(''Count'', ''0''), (''Done'', ''on''), (''Note'', [])],
                 checked = done_checked\<rparr>"

definition five_form :: form where
  "five_form = \<lparr>entries = [(''Count'', ''5''), (''Done'', ''on''), (''Note'', [])],
                 checked = done_checked\<rparr>"

text \<open>A selection of three rows, and backends that answer the second delete badly.\<close>

definition three_rows :: "jsobj list" where
  "three_rows = [[''ID'' \<mapsto> JNum 1], [''ID'' \<mapsto> JNum 2], [''ID'' \<mapsto> JNum 3]]"

definition all_deleted :: "nat \<Rightarrow> bool fetched" where
  "all_deleted i = Fulfilled True"

definition second_not_ok :: "nat \<Rightarrow> bool fetched" where
  "second_not_ok i = (if i = 1 then Fulfilled False else Fulfilled True)"

definition second_rejected :: "nat \<Rightarrow> bool fetched" where
  "second_rejected i = (if i = 1 then Rejected ''Failed to fetch'' else Fulfilled True)"

section \<open>The pending map under cell edits\<close>

lemma onCellChanged_lookup:
  "map_of (pendingChanges (onCellChanged now ev st)) r =
     (if rowId_of now ev = r \<and> strict_neq (newValue ev) (oldValue ev)
      then Some (case map_of (pendingChanges st) r of
                   None \<Rightarrow> \<lparr>original = data ev, changes = [colDef_field ev \<mapsto> newValue ev]\<rparr>
                 | Some e \<Rightarrow> e\<lparr>changes := (changes e)(colDef_field ev \<mapsto> newValue ev)\<rparr>)
      else map_of (pendingChanges st) r)"
  by (auto simp: onCellChanged_def Let_def enableSaveButton_def Map_has_def Map_set_def
        map_of_map_entry update_conv' split: option.splits)

lemma onCellChanged_distinct:
  "distinct (map fst (pendingChanges st)) \<Longrightarrow>
   distinct (map fst (pendingChanges (onCellChanged now ev st)))"
  by (auto simp: onCellChanged_def Let_def enableSaveButton_def Map_set_def
        intro!: distinct_map_entry distinct_update)

lemma run_edits_snoc:
  "run_edits (evs @ [(now, ev)]) st = onCellChanged now ev (run_edits evs st)"
  by (simp add: run_edits_def)

lemma run_edits_distinct:
  "distinct (map fst (pendingChanges st)) \<Longrightarrow>
   distinct (map fst (pendingChanges (run_edits evs st)))"
proof (induction evs rule: rev_induct)
  case Nil
  then show ?case by (simp add: run_edits_def)
next
  case (snoc x evs)
  then show ?case
    by (cases x) (simp add: run_edits_snoc onCellChanged_distinct)
qed

lemma filter_absent_key:
  "r \<notin> fst ` set p \<Longrightarrow> filter (\<lambda>(k, e). k = r) p = []"
  by (induction p) auto

lemma distinct_keys_at_most_one:
  "distinct (map fst p) \<Longrightarrow> length (filter (\<lambda>(k, e). k = r) p) \<le> 1"
  by (induction p) (auto simp: filter_absent_key)

lemma last_written_snoc:
  "last_written (es @ [ev]) = (last_written es)(colDef_field ev \<mapsto> newValue ev)"
  by (rule ext) (simp add: last_written_def)

lemma last_written_single:
  "last_written [ev] = [colDef_field ev \<mapsto> newValue ev]"
  by (rule ext) (simp add: last_written_def)

lemma edits_of_snoc:
  "edits_of r (evs @ [(now, ev)]) =
     edits_of r evs @
       (if rowId_of now ev = r \<and> strict_neq (newValue ev) (oldValue ev) then [ev] else [])"
  by (simp add: edits_of_def)

lemma run_edits_lookup:
  assumes "pendingChanges st = []"
  shows "map_of (pendingChanges (run_edits evs st)) r =
     (case edits_of r evs of
        [] \<Rightarrow> None
      | e # es \<Rightarrow> Some \<lparr>original = data e, changes = last_written (e # es)\<rparr>)"
proof (induction evs rule: rev_induct)
  case Nil
  show ?case using assms by (simp add: run_edits_def edits_of_def)
next
  case (snoc x evs)
  obtain now ev where x: "x = (now, ev)" by (cases x)
  show ?case
  proof (cases "rowId_of now ev = r \<and> strict_neq (newValue ev) (oldValue ev)")
    case False
    then show ?thesis
      using snoc by (auto simp: x run_edits_snoc onCellChanged_lookup edits_of_snoc)
  next
    case True
    show ?thesis
    proof (cases "edits_of r evs")
      case Nil
      then show ?thesis
        using snoc True
        by (simp add: x run_edits_snoc onCellChanged_lookup edits_of_snoc last_written_single)
    next
      case (Cons e es)
      have "last_written ((e # es) @ [ev]) =
              (last_written (e # es))(colDef_field ev \<mapsto> newValue ev)"
        by (rule last_written_snoc)
      then show ?thesis
        using snoc True Cons
        by (simp add: x run_edits_snoc onCellChanged_lookup edits_of_snoc)
    qed
  qed
qed

text \<open>
  Per row identifier. In a pending session, that is from an empty pending map on, and
  after any run of cell events: the pending map holds at most one entry under a row
  identifier \<open>r\<close>; there is none if no effective edit was filed under \<open>r\<close>; otherwise
  the entry's \<open>original\<close> is the row as the first such edit delivered it, and its
  \<open>changes\<close> hold, for each field, the value written last.
\<close>

lemma pending_entry_per_key:
  assumes "pendingChanges st = []"
  shows "length (filter (\<lambda>(k, e). k = r) (pendingChanges (run_edits evs st))) \<le> 1 \<and>
     map_of (pendingChanges (run_edits evs st)) r =
       (case edits_of r evs of
          [] \<Rightarrow> None
        | e # es \<Rightarrow> Some \<lparr>original = data e, changes = last_written (e # es)\<rparr>)"
proof -
  have "distinct (map fst (pendingChanges (run_edits evs st)))"
    using assms by (simp add: run_edits_distinct)
  then have "length (filter (\<lambda>(k, e). k = r) (pendingChanges (run_edits evs st))) \<le> 1"
    by (rule distinct_keys_at_most_one)
  then show ?thesis
    using run_edits_lookup [OF assms, of evs r] by (rule conjI)
qed

text \<open>
  Per row, for a row that has a backend identifier: when every event of the run carries
  the same truthy \<^verbatim>\<open>ID\<close>, all its effective edits are filed under that one key, so
  the one entry of the row merges them all.
\<close>

lemma edits_of_backend_row:
  assumes "truthy i"
    and "\<forall>(now, ev) \<in> set evs. get_prop (data ev) ''ID'' = i"
  shows "edits_of i evs =
           filter (\<lambda>ev. strict_neq (newValue ev) (oldValue ev)) (map snd evs)"
  using assms(2)
proof (induction evs)
  case Nil
  then show ?case by (simp add: edits_of_def)
next
  case (Cons x evs)
  obtain now ev where x: "x = (now, ev)" by (cases x)
  have "rowId_of now ev = i"
    using Cons.prems assms(1) by (simp add: x rowId_of_def)
  moreover have "edits_of i evs =
      filter (\<lambda>ev. strict_neq (newValue ev) (oldValue ev)) (map snd evs)"
    using Cons by simp
  ultimately show ?case
    by (simp add: x edits_of_def)
qed

lemma pending_entry_backend_row:
  assumes "pendingChanges st = []"
    and "truthy i"
    and "\<forall>(now, ev) \<in> set evs. get_prop (data ev) ''ID'' = i"
  shows "length (filter (\<lambda>(k, e). k = i) (pendingChanges (run_edits evs st))) \<le> 1 \<and>
     map_of (pendingChanges (run_edits evs st)) i =
       (case filter (\<lambda>ev. strict_neq (newValue ev) (oldValue ev)) (map snd evs) of
          [] \<Rightarrow> None
        | e # es \<Rightarrow> Some \<lparr>original = data e, changes = last_written (e # es)\<rparr>)"
  using pending_entry_per_key [OF assms(1), of i evs] edits_of_backend_row [OF assms(2,3)]
  by simp

lemma pending_entry_row_7:
  "length (filter (\<lambda>(k, e). k = JNum 7)
             (pendingChanges (run_edits [(1000, status_edit), (2000, owner_edit)] empty_app))) \<le> 1 \<and>
   map_of (pendingChanges (run_edits [(1000, status_edit), (2000, owner_edit)] empty_app)) (JNum 7) =
     Some \<lparr>original = data status_edit,
           changes = [''Status'' \<mapsto> JStr ''Closed'', ''Owner'' \<mapsto> JStr ''Bob'']\<rparr>"
proof -
  have h: "pendingChanges empty_app = []"
    by (simp add: empty_app_def)
  have e: "edits_of (JNum 7) [(1000, status_edit), (2000, owner_edit)] = [status_edit, owner_edit]"
    by (simp add: edits_of_def status_edit_def owner_edit_def rowId_of_def get_prop_def
          strict_neq_def)
  have l: "last_written [status_edit, owner_edit] =
             [''Status'' \<mapsto> JStr ''Closed'', ''Owner'' \<mapsto> JStr ''Bob'']"
    by (rule ext) (simp add: last_written_def status_edit_def owner_edit_def)
  show ?thesis
    using pending_entry_per_key [OF h, of "JNum 7" "[(1000, status_edit), (2000, owner_edit)]"]
    by (simp add: e l)
qed

section \<open>Row identifiers\<close>

lemma rowId_of_backend:
  "truthy (get_prop (data ev) ''ID'') \<Longrightarrow> rowId_of now ev = get_prop (data ev) ''ID''"
  by (simp add: rowId_of_def)

lemma rowId_of_temporary:
  "\<not> truthy (get_prop (data ev) ''ID'') \<Longrightarrow>
   rowId_of now ev = JStr (''new_'' @ show_nat now)"
  by (simp add: rowId_of_def)

lemma show_nat_1000: "show_nat 1000 = ''1000''"
  by (simp add: show_nat.simps digit_char_def)

lemma show_nat_2000: "show_nat 2000 = ''2000''"
  by (simp add: show_nat.simps digit_char_def)

text \<open>
  C2. A row without a backend identifier is keyed by a token minted from the clock at
  each edit, so the token is not reused: the title and the note of one such row, typed in
  at clock readings 1000 and 2000, are filed under \<^verbatim>\<open>new_1000\<close> and \<^verbatim>\<open>new_2000\<close>,
  in two entries, and saving would send two create operations for the one row.
\<close>

theorem temporary_token_minted_per_edit:
  "pendingChanges (run_edits [(1000, title_edit), (2000, note_edit)] empty_app) =
     [(JStr ''new_1000'',
       \<lparr>original = data title_edit, changes = [''Title'' \<mapsto> JStr ''Draft'']\<rparr>),
      (JStr ''new_2000'',
       \<lparr>original = data note_edit, changes = [''Note'' \<mapsto> JStr ''todo'']\<rparr>)] \<and>
   build_operations
     (pendingChanges (run_edits [(1000, title_edit), (2000, note_edit)] empty_app)) [] =
     Inr [\<lparr>action = ''create'', op_id = None, op_data = [''Title'' \<mapsto> JStr ''Draft'']\<rparr>,
          \<lparr>action = ''create'', op_id = None,
           op_data = [''Title'' \<mapsto> JStr ''Draft'', ''Note'' \<mapsto> JStr ''todo'']\<rparr>]"
proof -
  have p: "pendingChanges (run_edits [(1000, title_edit), (2000, note_edit)] empty_app) =
     [(JStr ''new_1000'',
       \<lparr>original = data title_edit, changes = [''Title'' \<mapsto> JStr ''Draft'']\<rparr>),
      (JStr ''new_2000'',
       \<lparr>original = data note_edit, changes = [''Note'' \<mapsto> JStr ''todo'']\<rparr>)]"
    by (simp add: run_edits_def onCellChanged_def rowId_of_def get_prop_def object_prototype_def strict_neq_def
          Map_has_def Map_set_def enableSaveButton_def empty_app_def title_edit_def
          note_edit_def show_nat_1000 show_nat_2000)
  show ?thesis
    unfolding p by (simp add: startsWith_def title_edit_def note_edit_def)
qed

lemma idless_row_pending:
  "pendingChanges (run_edits [(1000, title_edit), (2000, note_edit)] empty_app) =
     [(JStr ''new_1000'',
       \<lparr>original = data title_edit, changes = [''Title'' \<mapsto> JStr ''Draft'']\<rparr>),
      (JStr ''new_2000'',
       \<lparr>original = data note_edit, changes = [''Note'' \<mapsto> JStr ''todo'']\<rparr>)]"
  by (simp add: run_edits_def onCellChanged_def rowId_of_def get_prop_def object_prototype_def
        strict_neq_def Map_has_def Map_set_def enableSaveButton_def empty_app_def
        title_edit_def note_edit_def show_nat_1000 show_nat_2000)

text \<open>
  C1. The two edits of the one row without a backend identifier, handled at clock
  readings 1000 and 2000, are not merged: the pending map ends with two entries for the
  row, one under the identifier of each edit. The entry of the first edit lacks the note;
  the entry of the last edit lacks the title, whose last written value is
  \<^verbatim>\<open>Draft\<close>, and its \<open>original\<close> is the row as the second edit delivered it,
  which is not the row at the first edit.
\<close>

theorem idless_row_edits_not_merged:
  "length (pendingChanges (run_edits [(1000, title_edit), (2000, note_edit)] empty_app)) = 2 \<and>
   map_of (pendingChanges (run_edits [(1000, title_edit), (2000, note_edit)] empty_app))
     (rowId_of 1000 title_edit) =
     Some \<lparr>original = data title_edit, changes = [''Title'' \<mapsto> JStr ''Draft'']\<rparr> \<and>
   map_of (pendingChanges (run_edits [(1000, title_edit), (2000, note_edit)] empty_app))
     (rowId_of 2000 note_edit) =
     Some \<lparr>original = data note_edit, changes = [''Note'' \<mapsto> JStr ''todo'']\<rparr> \<and>
   last_written [title_edit, note_edit] ''Title'' = Some (JStr ''Draft'') \<and>
   last_written [title_edit, note_edit] ''Note'' = Some (JStr ''todo'') \<and>
   data note_edit \<noteq> data title_edit"
proof -
  have k1: "rowId_of 1000 title_edit = JStr ''new_1000''"
    by (simp add: rowId_of_def get_prop_def object_prototype_def title_edit_def show_nat_1000)
  have k2: "rowId_of 2000 note_edit = JStr ''new_2000''"
    by (simp add: rowId_of_def get_prop_def object_prototype_def note_edit_def show_nat_2000)
  have w: "last_written [title_edit, note_edit] ''Title'' = Some (JStr ''Draft'') \<and>
      last_written [title_edit, note_edit] ''Note'' = Some (JStr ''todo'')"
    by (simp add: last_written_def title_edit_def note_edit_def)
  have "data note_edit ''Note'' \<noteq> data title_edit ''Note''"
    by (simp add: title_edit_def note_edit_def)
  then have d: "data note_edit \<noteq> data title_edit"
    by (metis (full_types))
  show ?thesis
    using w d by (simp add: idless_row_pending k1 k2)
qed

section \<open>Saving all pending changes\<close>

lemma build_operations_acc:
  "\<forall>(k, e) \<in> set p. \<exists>s. k = JStr s \<Longrightarrow>
   build_operations p acc = Inr (acc @ map (\<lambda>(k, e). operation_of (to_string k) e) p)"
proof (induction p arbitrary: acc)
  case Nil
  then show ?case by simp
next
  case (Cons a p)
  obtain k e where a: "a = (k, e)" by (cases a)
  from Cons.prems obtain s where k: "k = JStr s" by (auto simp: a)
  have "\<forall>(k, e) \<in> set p. \<exists>s. k = JStr s" using Cons.prems by simp
  then show ?case
    by (simp add: a k Cons.IH operation_of_def)
qed

text \<open>
  When every key of the pending map is a string, the loop builds one operation per
  entry, in iteration order: a create with the merged data under a \<^verbatim>\<open>new_\<close> key, an
  update with the changes and the key as \<^verbatim>\<open>id\<close> otherwise.
\<close>

lemma build_operations_strings:
  "\<forall>(k, e) \<in> set p. \<exists>s. k = JStr s \<Longrightarrow>
   build_operations p [] = Inr (map (\<lambda>(k, e). operation_of (to_string k) e) p)"
  using build_operations_acc [of p "[]"] by simp

lemma create_data_precedence:
  "op_data (operation_of (''new_'' @ s) change) f =
     (case changes change f of Some v \<Rightarrow> Some v | None \<Rightarrow> original change f)"
  by (simp add: operation_of_def startsWith_def map_add_def)

text \<open>
  C3. A row whose backend identifier is the number 7 is filed under the key 7, and
  \<^verbatim>\<open>rowId.startsWith\<close> throws on it before any request is built: after the one edit of
  the status of row 7, \<^verbatim>\<open>saveAllChanges\<close> ends in a \<^verbatim>\<open>TypeError\<close>, whatever the
  backend would have answered.
\<close>

theorem saveAllChanges_numeric_id:
  "pendingChanges (run_edits [(1000, status_edit)] empty_app) =
     [(JNum 7, \<lparr>original = data status_edit, changes = [''Status'' \<mapsto> JStr ''Closed'']\<rparr>)] \<and>
   saveAllChanges bres fres dres (run_edits [(1000, status_edit)] empty_app) = Inl TypeError"
proof -
  have p: "pendingChanges (run_edits [(1000, status_edit)] empty_app) =
     [(JNum 7, \<lparr>original = data status_edit, changes = [''Status'' \<mapsto> JStr ''Closed'']\<rparr>)]"
    by (simp add: run_edits_def onCellChanged_def rowId_of_def get_prop_def object_prototype_def strict_neq_def
          Map_has_def Map_set_def enableSaveButton_def empty_app_def status_edit_def)
  show ?thesis
    by (simp add: p saveAllChanges_def Map_size_def)
qed

text \<open>
  C4. With an empty pending map, \<^verbatim>\<open>saveAllChanges\<close> only shows the toast
  \<^verbatim>\<open>No changes to save\<close> of type \<^verbatim>\<open>info\<close>: nothing else of the application changes,
  and no request is issued.
\<close>

theorem saveAllChanges_empty:
  assumes "Map_size (pendingChanges st) = 0"
  shows "saveAllChanges bres fres dres st =
           Inr (st\<lparr>toasts := toasts st @ [(''No changes to save'', ''info'')]\<rparr>) \<and>
         requests (st\<lparr>toasts := toasts st @ [(''No changes to save'', ''info'')]\<rparr>) =
           requests st"
proof -
  have "saveAllChanges bres fres dres st = Inr (showToast ''No changes to save'' ''info'' st)"
    using assms by (simp add: saveAllChanges_def)
  then show ?thesis
    by (simp add: showToast_def)
qed

theorem saveAllChanges_empty_witness:
  "Map_size (pendingChanges empty_app) = 0 \<and>
   saveAllChanges (Fulfilled bulk_ok) schema_ok rows_ok empty_app =
     Inr (empty_app\<lparr>toasts := [(''No changes to save'', ''info'')]\<rparr>) \<and>
   requests (empty_app\<lparr>toasts := [(''No changes to save'', ''info'')]\<rparr>) = []"
proof -
  have h: "Map_size (pendingChanges empty_app) = 0"
    by (simp add: Map_size_def empty_app_def)
  show ?thesis
    using saveAllChanges_empty [OF h, of "Fulfilled bulk_ok" schema_ok rows_ok] h
    by (simp add: empty_app_def)
qed

section \<open>Reloading\<close>

lemma pendingChanges_refreshData:
  "pendingChanges (refreshData fres dres st) = []"
  by (simp add: refreshData_def enableSaveButton_def)

lemma requests_loadInitialData:
  "requests (loadInitialData fres dres st) =
     requests st @ [GET_fields] @ (if schema_arrived fres then [GET_data] else [])"
  by (simp add: loadInitialData_def schema_arrived_def fetch_def load_failed_def showError_def
        Let_def split: fetched.splits)

lemma requests_refreshData:
  "requests (refreshData fres dres st) =
     requests st @ [GET_fields] @ (if schema_arrived fres then [GET_data] else [])"
  by (simp add: refreshData_def enableSaveButton_def requests_loadInitialData)

lemma toasts_refreshData:
  "toasts (refreshData fres dres st) = toasts st"
  by (simp add: refreshData_def enableSaveButton_def loadInitialData_def fetch_def
        load_failed_def showError_def Let_def split: fetched.splits)

lemma text_id_pending:
  "pendingChanges (run_edits [(1000, text_id_edit)] empty_app) =
     [(JStr ''7'', \<lparr>original = data text_id_edit, changes = [''Status'' \<mapsto> JStr ''Closed'']\<rparr>)]"
  by (simp add: run_edits_def onCellChanged_def rowId_of_def get_prop_def object_prototype_def strict_neq_def
        Map_has_def Map_set_def enableSaveButton_def empty_app_def text_id_edit_def)

lemma text_id_requests:
  "requests (run_edits [(1000, text_id_edit)] empty_app) = []"
  by (simp add: run_edits_def onCellChanged_def Let_def enableSaveButton_def empty_app_def)

lemma text_id_toasts:
  "toasts (run_edits [(1000, text_id_edit)] empty_app) = []"
  by (simp add: run_edits_def onCellChanged_def Let_def enableSaveButton_def empty_app_def)

lemma text_id_operations:
  "build_operations (pendingChanges (run_edits [(1000, text_id_edit)] empty_app)) [] =
     Inr [\<lparr>action = ''update'', op_id = Some (JStr ''7''),
           op_data = [''Status'' \<mapsto> JStr ''Closed'']\<rparr>]"
  by (simp add: text_id_pending startsWith_def)




text \<open>
  C6. When the bulk request reports a failure, \<^verbatim>\<open>saveAllChanges\<close> returns with the
  application as it was, but for the one bulk request issued and one error toast, whose
  message carries the reported failures. In particular the pending map and its entries
  are unchanged, and there is no second request: no rollback, no retry, no reload.
\<close>

theorem saveAllChanges_failure:
  assumes "pendingChanges st \<noteq> []"
    and "build_operations (pendingChanges st) [] = Inr operations"
    and "\<not> br_success result"
  shows "saveAllChanges (Fulfilled result) fres dres st =
           Inr (st\<lparr>requests := requests st @ [POST_bulk operations],
                    toasts := toasts st @
                      [(''Error saving changes: Some operations failed: '' @
                          br_errors_json result, ''error'')]\<rparr>)"
proof -
  have "saveAllChanges (Fulfilled result) fres dres st =
          Inr (showToast
                 (''Error saving changes: '' @ ''Some operations failed: '' @
                    br_errors_json result)
                 ''error'' (fetch (POST_bulk operations) st))"
    using assms by (simp add: saveAllChanges_def Map_size_def)
  then show ?thesis
    by (simp add: showToast_def fetch_def)
qed

theorem saveAllChanges_failure_witness:
  "pendingChanges (run_edits [(1000, text_id_edit)] empty_app) \<noteq> [] \<and>
   \<not> br_success bulk_failed \<and>
   saveAllChanges (Fulfilled bulk_failed) schema_ok rows_ok
     (run_edits [(1000, text_id_edit)] empty_app) =
     Inr ((run_edits [(1000, text_id_edit)] empty_app)
            \<lparr>requests := [POST_bulk [\<lparr>action = ''update'', op_id = Some (JStr ''7''),
                                        op_data = [''Status'' \<mapsto> JStr ''Closed'']\<rparr>]],
              toasts := [(''Error saving changes: Some operations failed: [409]'', ''error'')]\<rparr>)"
proof -
  have h1: "pendingChanges (run_edits [(1000, text_id_edit)] empty_app) \<noteq> []"
    by (simp add: text_id_pending)
  have h3: "\<not> br_success bulk_failed"
    by (simp add: bulk_failed_def)
  show ?thesis
    using saveAllChanges_failure [OF h1 text_id_operations h3, of schema_ok rows_ok] h1 h3
    by (simp add: text_id_requests text_id_toasts bulk_failed_def)
qed

section \<open>Validation and the modal\<close>

lemma validate_fold:
  "fold (\<lambda>field errors.
           if required field \<and>
              (\<not> truthy (get_prop d (name field)) \<or> get_prop d (name field) = JStr [])
           then errors @ [title field @ '' is required'']
           else errors) fs acc =
   acc @ map required_message
           (filter (\<lambda>f. required f \<and> \<not> truthy (get_prop d (name f))) fs)"
  by (induction fs arbitrary: acc) (auto simp: required_message_def)

lemma validateRowData_filter:
  "validateRowData st d =
     map required_message
       (filter (\<lambda>f. required f \<and> \<not> truthy (get_prop d (name f))) (app_fields st))"
  by (simp only: validateRowData_def validate_fold append_Nil)

lemma saveRowFromModal_rejected:
  "validateRowData st (form_to_data parseFloat st fm) \<noteq> [] \<Longrightarrow>
   saveRowFromModal parseFloat fm ires fres dres st =
     showToast (''Please fix the following errors:'' @ [CHR 0x0A] @
                  join_lines (validateRowData st (form_to_data parseFloat st fm)))
       ''error'' st"
  by (simp add: saveRowFromModal_def Let_def)

lemma zero_form_data:
  "form_to_data sample_parseFloat count_app zero_form =
     [''Count'' \<mapsto> JNum 0, ''Done'' \<mapsto> JBool True, ''Note'' \<mapsto> JNull]"
  by (simp add: form_to_data_def count_app_def empty_app_def zero_form_def count_field_def
        done_field_def note_field_def sample_parseFloat_def done_checked_def)

lemma five_form_data:
  "form_to_data sample_parseFloat count_app five_form =
     [''Count'' \<mapsto> JNum 5, ''Done'' \<mapsto> JBool True, ''Note'' \<mapsto> JNull]"
  by (simp add: form_to_data_def count_app_def empty_app_def five_form_def count_field_def
        done_field_def note_field_def sample_parseFloat_def done_checked_def)

lemma count_app_fields:
  "app_fields count_app = [count_field, done_field, note_field]"
  by (simp add: count_app_def)

text \<open>
  What \<^verbatim>\<open>validateRowData\<close> computes: in schema order, one message
  \<^verbatim>\<open><title> is required\<close> for each required field for which \<^verbatim>\<open>data[field.name]\<close>
  is falsy, and nothing else; and when the data of the form yield any message,
  \<^verbatim>\<open>saveRowFromModal\<close> issues no request.
\<close>

lemma validate_required_falsy:
  "validateRowData st d =
     map required_message
       (filter (\<lambda>f. required f \<and> \<not> truthy (get_prop d (name f))) (app_fields st)) \<and>
   (validateRowData st (form_to_data parseFloat st fm) \<noteq> [] \<longrightarrow>
      requests (saveRowFromModal parseFloat fm ires fres dres st) = requests st)"
proof (rule conjI)
  show "validateRowData st d =
     map required_message
       (filter (\<lambda>f. required f \<and> \<not> truthy (get_prop d (name f))) (app_fields st))"
    by (rule validateRowData_filter)
next
  show "validateRowData st (form_to_data parseFloat st fm) \<noteq> [] \<longrightarrow>
      requests (saveRowFromModal parseFloat fm ires fres dres st) = requests st"
    by (simp add: saveRowFromModal_rejected showToast_def)
qed

text \<open>
  A zero typed into the required number of the form is rejected, with no request.
\<close>

lemma zero_form_rejected:
  "validateRowData count_app (form_to_data sample_parseFloat count_app zero_form) =
     [''Count is required''] \<and>
   requests (saveRowFromModal sample_parseFloat zero_form (Fulfilled item_ok) schema_ok rows_ok
               count_app) = []"
proof -
  have v: "validateRowData count_app (form_to_data sample_parseFloat count_app zero_form) =
     [''Count is required'']"
    by (simp add: validateRowData_filter zero_form_data count_app_fields get_prop_def
          object_prototype_def required_message_def count_field_def done_field_def
          note_field_def)
  have "requests (saveRowFromModal sample_parseFloat zero_form (Fulfilled item_ok) schema_ok
          rows_ok count_app) = requests count_app"
    using validate_required_falsy
      [of count_app "form_to_data sample_parseFloat count_app zero_form" sample_parseFloat
          zero_form "Fulfilled item_ok" schema_ok rows_ok]
    by (simp add: v)
  then show ?thesis
    using v by (simp add: count_app_def empty_app_def)
qed

text \<open>
  A required field named as a member of \<^verbatim>\<open>Object.prototype\<close> and absent from the data
  is not reported: the read finds the inherited member, which is truthy.
\<close>

lemma validate_inherited_member:
  "validateRowData (empty_app\<lparr>app_fields := [constructor_field]\<rparr>) Map.empty = []"
  by (simp add: validateRowData_def constructor_field_def get_prop_def object_prototype_def)

text \<open>
  C7. A required field whose submitted value is the number 0 is neither absent nor the
  empty string, and yet \<^verbatim>\<open>validateRowData\<close> returns \<^verbatim>\<open><title> is required\<close> for
  it: the result is not one message per required field that is absent or empty.
\<close>

theorem validate_reports_present_zero:
  assumes "f \<in> set (app_fields st)" and "required f" and "d (name f) = Some (JNum 0)"
  shows "\<not> absent_or_empty d f \<and> required_message f \<in> set (validateRowData st d)"
proof -
  have "\<not> truthy (get_prop d (name f))"
    using assms(3) by (simp add: get_prop_def)
  then have "required_message f \<in> set (validateRowData st d)"
    using assms(1,2) by (auto simp: validateRowData_filter)
  moreover have "\<not> absent_or_empty d f"
    using assms(3) by (simp add: absent_or_empty_def)
  ultimately show ?thesis
    by simp
qed

theorem validate_reports_present_zero_witness:
  "count_field \<in> set (app_fields count_app) \<and> required count_field \<and>
   zero_data (name count_field) = Some (JNum 0) \<and>
   \<not> absent_or_empty zero_data count_field \<and>
   \<not> absent_or_empty zero_data done_field \<and>
   required_message count_field = ''Count is required'' \<and>
   required_message count_field \<in> set (validateRowData count_app zero_data) \<and>
   validateRowData count_app zero_data = [''Count is required'']"
proof -
  have h1: "count_field \<in> set (app_fields count_app)"
    by (simp add: count_app_fields)
  have h2: "required count_field"
    by (simp add: count_field_def)
  have h3: "zero_data (name count_field) = Some (JNum 0)"
    by (simp add: zero_data_def count_field_def)
  have m: "required_message count_field = ''Count is required''"
    by (simp add: required_message_def count_field_def)
  have d: "\<not> absent_or_empty zero_data done_field"
    by (simp add: absent_or_empty_def zero_data_def done_field_def)
  have v: "validateRowData count_app zero_data = [''Count is required'']"
    by (simp add: validateRowData_def count_app_def empty_app_def get_prop_def
          object_prototype_def zero_data_def count_field_def done_field_def note_field_def)
  show ?thesis
    using validate_reports_present_zero
      [where f = count_field and st = count_app and d = zero_data, OF h1 h2 h3]
      h1 h2 h3 m d v
    by simp
qed

text \<open>
  C9. A required field of the schema whose submitted value is falsy is reported with
  \<^verbatim>\<open><title> is required\<close>; so it is when the value submitted is the number 0, and
  when it is \<^verbatim>\<open>false\<close>, although a value is present.
\<close>

theorem validate_falsy_reported:
  assumes "f \<in> set (app_fields st)" and "required f"
  shows "(\<not> truthy (get_prop d (name f)) \<longrightarrow>
            required_message f \<in> set (validateRowData st d)) \<and>
         (d (name f) = Some (JNum 0) \<longrightarrow> required_message f \<in> set (validateRowData st d)) \<and>
         (d (name f) = Some (JBool False) \<longrightarrow>
            required_message f \<in> set (validateRowData st d))"
proof -
  have r: "\<not> truthy (get_prop d (name f)) \<Longrightarrow> required_message f \<in> set (validateRowData st d)"
    using assms by (auto simp: validateRowData_filter)
  have "d (name f) = Some (JNum 0) \<Longrightarrow> \<not> truthy (get_prop d (name f))"
    by (simp add: get_prop_def object_prototype_def)
  moreover have "d (name f) = Some (JBool False) \<Longrightarrow> \<not> truthy (get_prop d (name f))"
    by (simp add: get_prop_def object_prototype_def)
  ultimately show ?thesis
    using r by blast
qed

theorem validate_falsy_reported_witness:
  "count_field \<in> set (app_fields count_app) \<and> required count_field \<and>
   falsy_data (name count_field) = Some (JNum 0) \<and>
   ''Count is required'' \<in> set (validateRowData count_app falsy_data) \<and>
   done_field \<in> set (app_fields count_app) \<and> required done_field \<and>
   falsy_data (name done_field) = Some (JBool False) \<and>
   ''Done is required'' \<in> set (validateRowData count_app falsy_data)"
proof -
  have c1: "count_field \<in> set (app_fields count_app)" and d1: "done_field \<in> set (app_fields count_app)"
    by (simp_all add: count_app_fields)
  have c2: "required count_field" and d2: "required done_field"
    by (simp_all add: count_field_def done_field_def)
  have c3: "falsy_data (name count_field) = Some (JNum 0)"
    by (simp add: falsy_data_def count_field_def)
  have d3: "falsy_data (name done_field) = Some (JBool False)"
    by (simp add: falsy_data_def done_field_def)
  have c4: "required_message count_field = ''Count is required''"
    by (simp add: required_message_def count_field_def)
  have d4: "required_message done_field = ''Done is required''"
    by (simp add: required_message_def done_field_def)
  show ?thesis
    using validate_falsy_reported [OF c1 c2, of falsy_data]
      validate_falsy_reported [OF d1 d2, of falsy_data] c1 c2 c3 d1 d2 d3
    by (simp add: c4 d4)
qed

lemma status_pending:
  "pendingChanges (run_edits [(1000, status_edit)] count_app) =
     [(JNum 7, \<lparr>original = data status_edit, changes = [''Status'' \<mapsto> JStr ''Closed'']\<rparr>)]"
  by (simp add: run_edits_def onCellChanged_def rowId_of_def get_prop_def object_prototype_def strict_neq_def
        Map_has_def Map_set_def enableSaveButton_def count_app_def empty_app_def
        status_edit_def)

lemma status_app_unchanged:
  "app_fields (run_edits [(1000, status_edit)] count_app) = app_fields count_app \<and>
   toasts (run_edits [(1000, status_edit)] count_app) = [] \<and>
   requests (run_edits [(1000, status_edit)] count_app) = []"
  by (simp add: run_edits_def onCellChanged_def Let_def enableSaveButton_def count_app_def
        empty_app_def)

text \<open>
  C10. When the data of the form pass validation and the create request reports
  success, \<^verbatim>\<open>saveRowFromModal\<close> ends in \<^verbatim>\<open>refreshData\<close>: after the create request
  the schema is requested again, and the rows after it when the schema came back without
  an error. Whatever the reload brings, the pending map is empty afterwards, whatever it
  held, and the only toast shown is the one of the success, so nothing tells of the edits
  dropped.
\<close>

theorem saveRowFromModal_clears_pending:
  assumes "validateRowData st (form_to_data parseFloat st fm) = []"
    and "ir_success result"
  shows "saveRowFromModal parseFloat fm (Fulfilled result) fres dres st =
           refreshData fres dres
             (showToast ''Row added successfully'' ''success''
                (fetch (POST_item (form_to_data parseFloat st fm)) st)) \<and>
         pendingChanges (saveRowFromModal parseFloat fm (Fulfilled result) fres dres st) = [] \<and>
         toasts (saveRowFromModal parseFloat fm (Fulfilled result) fres dres st) =
           toasts st @ [(''Row added successfully'', ''success'')] \<and>
         requests (saveRowFromModal parseFloat fm (Fulfilled result) fres dres st) =
           requests st @ [POST_item (form_to_data parseFloat st fm), GET_fields] @
             (if schema_arrived fres then [GET_data] else [])"
proof -
  have e: "saveRowFromModal parseFloat fm (Fulfilled result) fres dres st =
           refreshData fres dres
             (showToast ''Row added successfully'' ''success''
                (fetch (POST_item (form_to_data parseFloat st fm)) st))"
    using assms by (simp add: saveRowFromModal_def Let_def)
  show ?thesis
    unfolding e
    by (simp add: pendingChanges_refreshData toasts_refreshData requests_refreshData
          showToast_def fetch_def)
qed

theorem saveRowFromModal_clears_pending_witness:
  "validateRowData (run_edits [(1000, status_edit)] count_app)
     (form_to_data sample_parseFloat (run_edits [(1000, status_edit)] count_app) five_form) = [] \<and>
   ir_success item_ok \<and>
   pendingChanges (run_edits [(1000, status_edit)] count_app) =
     [(JNum 7, \<lparr>original = data status_edit, changes = [''Status'' \<mapsto> JStr ''Closed'']\<rparr>)] \<and>
   pendingChanges (saveRowFromModal sample_parseFloat five_form (Fulfilled item_ok) schema_ok
                     rows_ok (run_edits [(1000, status_edit)] count_app)) = [] \<and>
   toasts (saveRowFromModal sample_parseFloat five_form (Fulfilled item_ok) schema_ok
             rows_ok (run_edits [(1000, status_edit)] count_app)) =
     [(''Row added successfully'', ''success'')] \<and>
   requests (saveRowFromModal sample_parseFloat five_form (Fulfilled item_ok) schema_ok
               rows_ok (run_edits [(1000, status_edit)] count_app)) =
     [POST_item [''Count'' \<mapsto> JNum 5, ''Done'' \<mapsto> JBool True, ''Note'' \<mapsto> JNull],
      GET_fields, GET_data] \<and>
   pendingChanges (saveRowFromModal sample_parseFloat five_form (Fulfilled item_ok) schema_down
                     rows_down (run_edits [(1000, status_edit)] count_app)) = [] \<and>
   requests (saveRowFromModal sample_parseFloat five_form (Fulfilled item_ok) schema_down
               rows_down (run_edits [(1000, status_edit)] count_app)) =
     [POST_item [''Count'' \<mapsto> JNum 5, ''Done'' \<mapsto> JBool True, ''Note'' \<mapsto> JNull],
      GET_fields]"
proof -
  have f: "form_to_data sample_parseFloat (run_edits [(1000, status_edit)] count_app) five_form =
      [''Count'' \<mapsto> JNum 5, ''Done'' \<mapsto> JBool True, ''Note'' \<mapsto> JNull]"
    using five_form_data by (simp add: form_to_data_def status_app_unchanged)
  have h1: "validateRowData (run_edits [(1000, status_edit)] count_app)
     (form_to_data sample_parseFloat (run_edits [(1000, status_edit)] count_app) five_form) = []"
    by (simp add: f validateRowData_filter status_app_unchanged count_app_fields get_prop_def
          object_prototype_def count_field_def done_field_def note_field_def)
  have h2: "ir_success item_ok"
    by (simp add: item_ok_def)
  have up: "schema_arrived schema_ok" and down: "\<not> schema_arrived schema_down"
    by (simp_all add: schema_arrived_def schema_ok_def schema_down_def)
  have a: "pendingChanges (saveRowFromModal sample_parseFloat five_form (Fulfilled item_ok)
               schema_ok rows_ok (run_edits [(1000, status_edit)] count_app)) = [] \<and>
      toasts (saveRowFromModal sample_parseFloat five_form (Fulfilled item_ok) schema_ok
               rows_ok (run_edits [(1000, status_edit)] count_app)) =
        [(''Row added successfully'', ''success'')] \<and>
      requests (saveRowFromModal sample_parseFloat five_form (Fulfilled item_ok) schema_ok
               rows_ok (run_edits [(1000, status_edit)] count_app)) =
        [POST_item [''Count'' \<mapsto> JNum 5, ''Done'' \<mapsto> JBool True, ''Note'' \<mapsto> JNull],
         GET_fields, GET_data]"
    using saveRowFromModal_clears_pending [OF h1 h2, of schema_ok rows_ok, THEN conjunct2]
    by (simp add: f up status_app_unchanged)
  have b: "pendingChanges (saveRowFromModal sample_parseFloat five_form (Fulfilled item_ok)
               schema_down rows_down (run_edits [(1000, status_edit)] count_app)) = [] \<and>
      requests (saveRowFromModal sample_parseFloat five_form (Fulfilled item_ok) schema_down
               rows_down (run_edits [(1000, status_edit)] count_app)) =
        [POST_item [''Count'' \<mapsto> JNum 5, ''Done'' \<mapsto> JBool True, ''Note'' \<mapsto> JNull],
         GET_fields]"
    using saveRowFromModal_clears_pending [OF h1 h2, of schema_down rows_down, THEN conjunct2]
    by (simp add: f down status_app_unchanged)
  show ?thesis
    using h1 h2 a b by (simp add: status_pending)
qed

section \<open>Deleting the selected rows\<close>

lemma delete_loop_all_ok:
  "(\<And>j. j < length rows \<Longrightarrow> resp (i + j) = Fulfilled True) \<Longrightarrow>
   delete_loop resp i rows st = Inr (st\<lparr>requests := requests st @ map delete_request rows\<rparr>)"
proof (induction rows arbitrary: i st)
  case Nil
  then show ?case by simp
next
  case (Cons row rows)
  have 0: "resp i = Fulfilled True" using Cons.prems [of 0] by simp
  have "\<And>j. j < length rows \<Longrightarrow> resp (Suc i + j) = Fulfilled True"
    using Cons.prems [of "Suc j" for j] by simp
  then show ?case
    by (simp add: 0 Cons.IH fetch_def delete_request_def)
qed

lemma delete_loop_first_failure:
  "k < length rows \<Longrightarrow> (\<And>j. j < k \<Longrightarrow> resp (i + j) = Fulfilled True) \<Longrightarrow>
   resp (i + k) \<noteq> Fulfilled True \<Longrightarrow>
   delete_loop resp i rows st =
     Inl (delete_failure (resp (i + k)) (rows ! k),
          st\<lparr>requests := requests st @ map delete_request (take (Suc k) rows)\<rparr>)"
proof (induction rows arbitrary: i k st)
  case Nil
  then show ?case by simp
next
  case (Cons row rows)
  show ?case
  proof (cases k)
    case 0
    then show ?thesis
      using Cons.prems(3)
      by (auto simp: fetch_def delete_request_def delete_failure_def split: fetched.splits)
  next
    case (Suc k')
    have 0: "resp i = Fulfilled True" using Cons.prems(2) [of 0] Suc by simp
    have a: "k' < length rows" using Cons.prems(1) Suc by simp
    have b: "\<And>j. j < k' \<Longrightarrow> resp (Suc i + j) = Fulfilled True"
      using Cons.prems(2) [of "Suc j" for j] Suc by simp
    have c: "resp (Suc i + k') \<noteq> Fulfilled True" using Cons.prems(3) Suc by simp
    show ?thesis
      using Cons.IH [OF a b c]
      by (simp add: 0 Suc fetch_def delete_request_def)
  qed
qed

lemma three_rows_requests:
  "map delete_request three_rows = [DELETE_item ''1'', DELETE_item ''2'', DELETE_item ''3'']"
  by (simp add: three_rows_def delete_request_def get_prop_def object_prototype_def show_nat.simps digit_char_def)

text \<open>
  C8, as amended. For a non-empty selection, the confirmed deletion issues one delete
  request per selected row, in selection order, each after the answer to the one before.
  When every answer is \<^verbatim>\<open>ok\<close>, each row has had its one request, and the success
  toast and a reload follow. Otherwise it stops at the first delete that fails: the
  requests issued are those of the rows up to and including that one, and nothing more
  (no request for the later rows, none to undo or repeat the earlier ones, no reload);
  the one error toast names the failed row when the answer was not \<^verbatim>\<open>ok\<close>, and
  carries the message of the rejection when the request itself was rejected.
\<close>

theorem delete_rows_sequential:
  assumes "selectedRows \<noteq> []"
  shows "((\<forall>j < length selectedRows. resp j = Fulfilled True) \<longrightarrow>
            executeConfirmedAction resp fres dres (deleteSelectedRows selectedRows st) =
              (refreshData fres dres
                 (showToast (show_nat (length selectedRows) @ '' row(s) deleted successfully'')
                    ''success''
                    (st\<lparr>pendingConfirmAction := Some selectedRows,
                        requests := requests st @ map delete_request selectedRows\<rparr>)))
              \<lparr>pendingConfirmAction := None\<rparr>) \<and>
         (k < length selectedRows \<and> (\<forall>j < k. resp j = Fulfilled True) \<and>
          resp k \<noteq> Fulfilled True \<longrightarrow>
            executeConfirmedAction resp fres dres (deleteSelectedRows selectedRows st) =
              st\<lparr>pendingConfirmAction := None,
                 requests := requests st @ map delete_request (take (Suc k) selectedRows),
                 toasts := toasts st @
                   [(''Error deleting rows: '' @ delete_failure (resp k) (selectedRows ! k),
                     ''error'')]\<rparr>)"
proof (intro conjI impI)
  assume "\<forall>j < length selectedRows. resp j = Fulfilled True"
  then have "delete_loop resp 0 selectedRows (st\<lparr>pendingConfirmAction := Some selectedRows\<rparr>) =
      Inr (st\<lparr>pendingConfirmAction := Some selectedRows,
              requests := requests st @ map delete_request selectedRows\<rparr>)"
    using delete_loop_all_ok
      [of selectedRows resp 0 "st\<lparr>pendingConfirmAction := Some selectedRows\<rparr>"]
    by simp
  then show "executeConfirmedAction resp fres dres (deleteSelectedRows selectedRows st) =
              (refreshData fres dres
                 (showToast (show_nat (length selectedRows) @ '' row(s) deleted successfully'')
                    ''success''
                    (st\<lparr>pendingConfirmAction := Some selectedRows,
                        requests := requests st @ map delete_request selectedRows\<rparr>)))
              \<lparr>pendingConfirmAction := None\<rparr>"
    using assms
    by (simp add: executeConfirmedAction_def deleteSelectedRows_def confirmed_delete_def)
next
  assume h: "k < length selectedRows \<and> (\<forall>j < k. resp j = Fulfilled True) \<and>
          resp k \<noteq> Fulfilled True"
  then have "delete_loop resp 0 selectedRows (st\<lparr>pendingConfirmAction := Some selectedRows\<rparr>) =
      Inl (delete_failure (resp k) (selectedRows ! k),
           st\<lparr>pendingConfirmAction := Some selectedRows,
              requests := requests st @ map delete_request (take (Suc k) selectedRows)\<rparr>)"
    using delete_loop_first_failure
      [of k selectedRows resp 0 "st\<lparr>pendingConfirmAction := Some selectedRows\<rparr>"]
    by simp
  then show "executeConfirmedAction resp fres dres (deleteSelectedRows selectedRows st) =
              st\<lparr>pendingConfirmAction := None,
                 requests := requests st @ map delete_request (take (Suc k) selectedRows),
                 toasts := toasts st @
                   [(''Error deleting rows: '' @ delete_failure (resp k) (selectedRows ! k),
                     ''error'')]\<rparr>"
    using assms
    by (simp add: executeConfirmedAction_def deleteSelectedRows_def confirmed_delete_def
          showToast_def)
qed

theorem delete_rows_sequential_witness:
  "three_rows \<noteq> [] \<and>
   requests (executeConfirmedAction all_deleted schema_ok rows_ok
               (deleteSelectedRows three_rows empty_app)) =
     [DELETE_item ''1'', DELETE_item ''2'', DELETE_item ''3'', GET_fields, GET_data] \<and>
   toasts (executeConfirmedAction all_deleted schema_ok rows_ok
             (deleteSelectedRows three_rows empty_app)) =
     [(''3 row(s) deleted successfully'', ''success'')] \<and>
   executeConfirmedAction second_not_ok schema_ok rows_ok
     (deleteSelectedRows three_rows empty_app) =
     empty_app\<lparr>requests := [DELETE_item ''1'', DELETE_item ''2''],
               toasts := [(''Error deleting rows: Failed to delete row 2'', ''error'')]\<rparr>"
proof -
  have n: "three_rows \<noteq> []"
    by (simp add: three_rows_def)
  have l: "length three_rows = 3"
    by (simp add: three_rows_def)
  have ok: "\<forall>j < length three_rows. all_deleted j = Fulfilled True"
    by (simp add: all_deleted_def)
  have s: "schema_arrived schema_ok"
    by (simp add: schema_arrived_def schema_ok_def)
  have bad: "(1::nat) < length three_rows \<and> (\<forall>j < 1. second_not_ok j = Fulfilled True) \<and>
      second_not_ok 1 \<noteq> Fulfilled True"
    by (simp add: l second_not_ok_def)
  have t: "take (Suc 1) three_rows = [[''ID'' \<mapsto> JNum 1], [''ID'' \<mapsto> JNum 2]]"
    by (simp add: three_rows_def)
  have m: "delete_failure (second_not_ok 1) (three_rows ! 1) = ''Failed to delete row 2''"
    by (simp add: delete_failure_def second_not_ok_def three_rows_def get_prop_def object_prototype_def
          show_nat.simps digit_char_def)
  have r2: "map delete_request [[''ID'' \<mapsto> JNum 1], [''ID'' \<mapsto> JNum 2]] =
      [DELETE_item ''1'', DELETE_item ''2'']"
    by (simp add: delete_request_def get_prop_def object_prototype_def show_nat.simps digit_char_def)
  have a: "executeConfirmedAction all_deleted schema_ok rows_ok
             (deleteSelectedRows three_rows empty_app) =
           (refreshData schema_ok rows_ok
              (showToast (show_nat (length three_rows) @ '' row(s) deleted successfully'')
                 ''success''
                 (empty_app\<lparr>pendingConfirmAction := Some three_rows,
                     requests := requests empty_app @ map delete_request three_rows\<rparr>)))
           \<lparr>pendingConfirmAction := None\<rparr>"
    using delete_rows_sequential
      [OF n, where resp = all_deleted and fres = schema_ok and dres = rows_ok
         and st = empty_app] ok
    by blast
  have b: "executeConfirmedAction second_not_ok schema_ok rows_ok
             (deleteSelectedRows three_rows empty_app) =
           empty_app\<lparr>pendingConfirmAction := None,
              requests := requests empty_app @ map delete_request (take (Suc 1) three_rows),
              toasts := toasts empty_app @
                [(''Error deleting rows: '' @ delete_failure (second_not_ok 1) (three_rows ! 1),
                  ''error'')]\<rparr>"
    using delete_rows_sequential
      [OF n, where resp = second_not_ok and k = 1 and fres = schema_ok and dres = rows_ok
         and st = empty_app] bad
    by blast
  have a1: "requests (executeConfirmedAction all_deleted schema_ok rows_ok
               (deleteSelectedRows three_rows empty_app)) =
     [DELETE_item ''1'', DELETE_item ''2'', DELETE_item ''3'', GET_fields, GET_data]"
    unfolding a
    by (simp add: requests_refreshData s showToast_def three_rows_requests empty_app_def)
  have a2: "toasts (executeConfirmedAction all_deleted schema_ok rows_ok
             (deleteSelectedRows three_rows empty_app)) =
     [(''3 row(s) deleted successfully'', ''success'')]"
    unfolding a
    by (simp add: toasts_refreshData showToast_def l empty_app_def show_nat.simps
          digit_char_def)
  have b1: "executeConfirmedAction second_not_ok schema_ok rows_ok
     (deleteSelectedRows three_rows empty_app) =
     empty_app\<lparr>requests := [DELETE_item ''1'', DELETE_item ''2''],
               toasts := [(''Error deleting rows: Failed to delete row 2'', ''error'')]\<rparr>"
    unfolding b t m r2
    by (simp add: empty_app_def)
  show ?thesis
    using n a1 a2 b1 by simp
qed

theorem delete_rejected_counterexample:
  "executeConfirmedAction second_rejected schema_ok rows_ok
     (deleteSelectedRows three_rows empty_app) =
     empty_app\<lparr>requests := [DELETE_item ''1'', DELETE_item ''2''],
               toasts := [(''Error deleting rows: Failed to fetch'', ''error'')]\<rparr>"
  by (simp add: executeConfirmedAction_def deleteSelectedRows_def confirmed_delete_def
        three_rows_def second_rejected_def empty_app_def fetch_def showToast_def get_prop_def object_prototype_def
        show_nat.simps digit_char_def)

end
